theory Spec2Isabelle
  imports Main
begin

section \<open>JavaScript values\<close>

text \<open>
  The adapter of \<^verbatim>\<open>src/index.js\<close> inspects its argument and the results of
  a pull by property lookup, strict comparison and \<^verbatim>\<open>typeof\<close>. Values are
  modelled as far as these operations look at them. An object is its list of properties
  (own and inherited ones alike) and a flag telling whether it is callable, since a
  JavaScript function is an object whose \<^verbatim>\<open>typeof\<close> is "function".
  Properties are plain data properties (no getters, no proxies). Numbers stand for
  opaque payloads; the adapter never computes with them. \<open>TypeError m\<close> and
  \<open>PlainError m\<close> are objects of the classes TypeError and Error with message
  \<open>m\<close>.
\<close>

datatype pkey = Named string | SymbolAsyncIterator

datatype jsval =
    Undefined
  | Null
  | Boolean bool
  | Number int
  | Text string
  | TypeError string
  | PlainError string
  | Object bool "(pkey \<times> jsval) list"

fun typeof :: "jsval \<Rightarrow> string" where
  "typeof Undefined = ''undefined''"
| "typeof Null = ''object''"
| "typeof (Boolean b) = ''boolean''"
| "typeof (Number n) = ''number''"
| "typeof (Text s) = ''string''"
| "typeof (TypeError m) = ''object''"
| "typeof (PlainError m) = ''object''"
| "typeof (Object callable ps) = (if callable then ''function'' else ''object'')"

text \<open>
  \<^verbatim>\<open>v[k]\<close> for a value that is neither null nor undefined (on those two a
  property read throws, which every caller below checks first). A primitive has none
  of the properties the adapter asks for.
\<close>

fun get_prop :: "jsval \<Rightarrow> pkey \<Rightarrow> jsval" where
  "get_prop (Object callable ps) k = (case map_of ps k of Some v \<Rightarrow> v | None \<Rightarrow> Undefined)"
| "get_prop (TypeError m) k = (if k = Named ''message'' then Text m else Undefined)"
| "get_prop (PlainError m) k = (if k = Named ''message'' then Text m else Undefined)"
| "get_prop v k = Undefined"

definition nullish :: "jsval \<Rightarrow> bool" where
  "nullish v = (v = Null \<or> v = Undefined)"

text \<open>
  A call \<^verbatim>\<open>o.m()\<close> throws a TypeError unless \<^verbatim>\<open>o.m\<close> is callable.
\<close>

definition callable :: "jsval \<Rightarrow> bool" where
  "callable v = (typeof v = ''function'')"

definition has_next :: "jsval \<Rightarrow> bool" where
  "has_next obj = callable (get_prop obj (Named ''next''))"

section \<open>The wrapped sequence and its pulls\<close>

text \<open>
  What one evaluation of \<^verbatim>\<open>this._g.next().then(callback)\<close> can do once
  \<^verbatim>\<open>next\<close> is callable: the call throws, or it returns something that has no
  callable \<^verbatim>\<open>then\<close> (a TypeError at the call of \<^verbatim>\<open>then\<close>), or it returns a
  promise, which later fulfils with a result, later rejects with an error, or never
  settles. The wrapped sequence is the function giving the outcome of its i-th pull
  (counted from 0): the adapter passes no argument to \<^verbatim>\<open>next\<close>, so nothing else
  can influence the sequence.
\<close>

datatype settlement = Fulfils jsval | Rejects jsval | Pends

datatype pull = Throws jsval | NotThenable | Returns settlement

type_synonym sequence = "nat \<Rightarrow> pull"

section \<open>The host stream\<close>

text \<open>
  What the consumer of the stream is given, in order: an item, the end-of-stream
  marker, or an error notification.
\<close>

datatype event = Data jsval | End | Error jsval

text \<open>
  The part of the object that \<^verbatim>\<open>Readable.call(this, { objectMode: true })\<close>
  initialises. \<open>reading\<close> is set by the host when it calls \<^verbatim>\<open>_read\<close> and
  cleared by \<^verbatim>\<open>push\<close>; \<open>ended\<close> is set by \<^verbatim>\<open>push(null)\<close>; \<open>buffered\<close>
  counts the items pushed and not yet taken by the consumer (the model has no step
  that takes one, so statements hold for every value of the counter).
\<close>

record readable =
  objectMode :: bool
  highWaterMark :: nat
  buffered :: nat
  reading :: bool
  ended :: bool
  emitted :: "event list"

text \<open>
  The adapter object: the host part and \<^verbatim>\<open>this._g\<close>. Three more fields hold
  what lives outside the object but is changed by its methods: the cursor of the
  wrapped sequence (how often \<^verbatim>\<open>next\<close> was invoked), the promises returned by
  \<^verbatim>\<open>next\<close> on which a continuation is registered and which have not settled yet
  (oldest first), and the rejections that no handler receives.
\<close>

record adapter = readable +
  g :: jsval
  calls :: nat
  pending :: "settlement list"
  unhandled :: "jsval list"

text \<open>
  Modelled from the spec: \<^verbatim>\<open>Readable.prototype.push\<close> of the host stream
  library, which is not part of src/: the emission into the output buffer, with
  its accept/reject answer, and the end-of-stream marker. Pushing null is the
  end-of-stream marker (the adapter itself pushes null on completion); any other
  chunk is an item, taken as it is in object mode. The call answers whether the
  internal buffer is still below the high-water mark. As the host documents it, a
  chunk that is not a string is refused with an error notification when the stream
  is not in object mode, and so is an item pushed after the end of the stream.
\<close>

definition push :: "jsval \<Rightarrow> 'a readable_scheme \<Rightarrow> bool \<times> 'a readable_scheme" where
  "push chunk s =
     (if chunk = Null then
        (False, if ended s then s\<lparr>reading := False\<rparr>
                else s\<lparr>reading := False, ended := True, emitted := emitted s @ [End]\<rparr>)
      else if \<not> objectMode s \<and> typeof chunk \<noteq> ''string'' then
        (False, s\<lparr>emitted := emitted s @ [Error (TypeError ''Invalid non-string/buffer chunk'')]\<rparr>)
      else if ended s then
        (False, s\<lparr>emitted := emitted s @ [Error (PlainError ''stream.push() after EOF'')]\<rparr>)
      else
        (Suc (buffered s) < highWaterMark s,
         s\<lparr>reading := False, buffered := Suc (buffered s),
           emitted := emitted s @ [Data chunk]\<rparr>))"

text \<open>
  Modelled from the spec: \<^verbatim>\<open>this.emit("error", e)\<close> of the host, which is
  not part of src/: the stream-level error notification, with a consumer that
  listens for it.
\<close>

definition emit_error :: "jsval \<Rightarrow> 'a readable_scheme \<Rightarrow> 'a readable_scheme" where
  "emit_error e s = s\<lparr>emitted := emitted s @ [Error e]\<rparr>"

section \<open>The adapter\<close>

text \<open>
  \<^verbatim>\<open>isAsyncIterator\<close>: \<^verbatim>\<open>obj == null\<close> holds for null and undefined only.
\<close>

definition isAsyncIterator :: "jsval \<Rightarrow> bool" where
  "isAsyncIterator obj =
     (if nullish obj then False
      else typeof (get_prop obj SymbolAsyncIterator) = ''function'')"

text \<open>
  The constructor, reached through the exported \<^verbatim>\<open>list => new StreamGenerators(list)\<close>.
  A throw is the left summand. \<open>initialised\<close> is the object as
  \<^verbatim>\<open>Readable.call(this, { objectMode: true })\<close> and \<^verbatim>\<open>this._g = g\<close> leave it, with
  nothing pulled yet; the high-water mark of an object-mode stream is 16.
\<close>

definition initialised :: "jsval \<Rightarrow> adapter" where
  "initialised g0 =
     \<lparr>objectMode = True, highWaterMark = 16, buffered = 0, reading = False,
      ended = False, emitted = [],
      g = g0, calls = 0, pending = [], unhandled = []\<rparr>"

definition StreamGenerators :: "jsval \<Rightarrow> jsval + adapter" where
  "StreamGenerators g0 =
     (if \<not> isAsyncIterator g0 then
        Inl (TypeError ''First argument must be a ES6 Async Generator'')
      else Inr (initialised g0))"

definition streamify :: "jsval \<Rightarrow> jsval + adapter" where
  "streamify list = StreamGenerators list"

text \<open>
  \<^verbatim>\<open>StreamGenerators.prototype._read\<close> (its parameter \<^verbatim>\<open>size\<close> is never
  used). Everything inside the \<^verbatim>\<open>try\<close> that throws synchronously ends in the
  \<^verbatim>\<open>catch\<close>: \<^verbatim>\<open>next\<close> not being callable, \<^verbatim>\<open>next\<close> throwing, and
  \<^verbatim>\<open>then\<close> not being callable on what it returned. Otherwise the continuation
  is registered on the returned promise and \<^verbatim>\<open>_read\<close> returns.
\<close>

definition StreamGenerators_read :: "sequence \<Rightarrow> adapter \<Rightarrow> adapter" where
  "StreamGenerators_read nxt s =
     (if \<not> has_next (g s) then
        emit_error (TypeError ''this._g.next is not a function'') s
      else
        (case nxt (calls s) of
           Throws e \<Rightarrow> emit_error e (s\<lparr>calls := Suc (calls s)\<rparr>)
         | NotThenable \<Rightarrow>
             emit_error (TypeError ''this._g.next(...).then is not a function'')
               (s\<lparr>calls := Suc (calls s)\<rparr>)
         | Returns p \<Rightarrow> s\<lparr>calls := Suc (calls s), pending := pending s @ [p]\<rparr>))"

text \<open>
  The continuation \<^verbatim>\<open>r => { if (false === r.done) this.push(r.value); else this.push(null); }\<close>.
  What \<^verbatim>\<open>push\<close> answers is dropped. Reading \<^verbatim>\<open>r.done\<close> of null or
  undefined throws inside the continuation, which rejects the promise that
  \<^verbatim>\<open>then\<close> returned; nothing handles that promise.
\<close>

definition on_fulfilled :: "jsval \<Rightarrow> adapter \<Rightarrow> adapter" where
  "on_fulfilled r s =
     (if nullish r then
        s\<lparr>unhandled := unhandled s @ [TypeError ''Cannot read properties of undefined'']\<rparr>
      else if get_prop r (Named ''done'') = Boolean False then
        snd (push (get_prop r (Named ''value'')) s)
      else
        snd (push Null s))"

text \<open>
  The oldest outstanding promise settles. Only a fulfilment handler was registered,
  so a rejection passes to the promise returned by \<^verbatim>\<open>then\<close>, which nothing
  handles: no method of the stream is called.
\<close>

definition settle :: "adapter \<Rightarrow> adapter" where
  "settle s =
     (case pending s of
        [] \<Rightarrow> s
      | Pends # ps \<Rightarrow> s
      | Fulfils r # ps \<Rightarrow> on_fulfilled r (s\<lparr>pending := ps\<rparr>)
      | Rejects e # ps \<Rightarrow> s\<lparr>pending := ps, unhandled := unhandled s @ [e]\<rparr>)"

section \<open>The host's demand discipline\<close>

text \<open>
  Modelled from the spec: the demand signal of the host stream machinery, which is
  not part of src/. The host calls \<^verbatim>\<open>_read\<close> only while the stream has not
  ended and no earlier call is still waiting for its \<^verbatim>\<open>push\<close>; it sets its
  \<open>reading\<close> flag for the call.
\<close>

definition demand :: "sequence \<Rightarrow> adapter \<Rightarrow> adapter" where
  "demand nxt s =
     (if ended s \<or> reading s then s
      else StreamGenerators_read nxt (s\<lparr>reading := True\<rparr>))"

datatype step = Demand | Settle

fun do_step :: "sequence \<Rightarrow> step \<Rightarrow> adapter \<Rightarrow> adapter" where
  "do_step nxt Demand s = demand nxt s"
| "do_step nxt Settle s = settle s"

fun run :: "sequence \<Rightarrow> step list \<Rightarrow> adapter \<Rightarrow> adapter" where
  "run nxt [] s = s"
| "run nxt (a # as) s = run nxt as (do_step nxt a s)"

text \<open>
  A consumer that keeps asking: \<open>n\<close> rounds of one demand followed by the
  settlement of the pull it caused.
\<close>

fun drive :: "sequence \<Rightarrow> nat \<Rightarrow> adapter \<Rightarrow> adapter" where
  "drive nxt 0 s = s"
| "drive nxt (Suc n) s = drive nxt n (settle (demand nxt s))"

section \<open>Sequences as async generators produce them\<close>

text \<open>
  The result objects of an async generator: \<^verbatim>\<open>{ done: false, value: v }\<close> for
  a yielded value and \<^verbatim>\<open>{ done: true, value: undefined }\<close> on completion.
\<close>

definition yields :: "jsval \<Rightarrow> pull" where
  "yields v = Returns (Fulfils (Object False [(Named ''done'', Boolean False), (Named ''value'', v)]))"

definition completes :: pull where
  "completes = Returns (Fulfils (Object False [(Named ''done'', Boolean True), (Named ''value'', Undefined)]))"

text \<open>
  The generator object of \<^verbatim>\<open>async function*\<close>: both \<^verbatim>\<open>next\<close> and the
  async-iterator lookup are callable (inherited) properties.
\<close>

definition generator_object :: jsval where
  "generator_object =
     Object False [(Named ''next'', Object True []), (SymbolAsyncIterator, Object True [])]"

text \<open>
  A generator that yields the items of a list and then completes, and stays
  completed on every later pull.
\<close>

definition generator_of :: "jsval list \<Rightarrow> sequence" where
  "generator_of vs i = (if i < length vs then yields (vs ! i) else completes)"

text \<open>
  A generator that yields the items of a list and then throws \<open>e\<close>: the pull
  after the last item rejects, later pulls report completion.
\<close>

definition failing_generator :: "jsval list \<Rightarrow> jsval \<Rightarrow> sequence" where
  "failing_generator vs e i =
     (if i < length vs then yields (vs ! i)
      else if i = length vs then Returns (Rejects e)
      else completes)"

text \<open>
  An async iterable that is not its own iterator: the lookup is callable, but the
  object has no \<^verbatim>\<open>next\<close>. A readable stream of the host is such an object.
\<close>

definition iterable_only :: jsval where
  "iterable_only = Object False [(SymbolAsyncIterator, Object True [])]"

text \<open>A composite record, as the examples of the repository stream them.\<close>

definition car_record :: jsval where
  "car_record =
     Object False
       [(Named ''guid'', Text ''bf62800e''),
        (Named ''car_model_year'', Number 1986),
        (Named ''owner'', Object False [(Named ''title'', Text ''Rev''), (Named ''tags'', Null)])]"

section \<open>Predicates used in the statements\<close>

text \<open>
  The i-th pull resolves to a result object whose \<^verbatim>\<open>done\<close> is \<^verbatim>\<open>false\<close> and
  whose \<^verbatim>\<open>value\<close> is \<open>v\<close>: the sequence yields \<open>v\<close>.
\<close>

definition resolves_item :: "sequence \<Rightarrow> nat \<Rightarrow> jsval \<Rightarrow> bool" where
  "resolves_item nxt i v =
     (case nxt i of
        Returns (Fulfils r) \<Rightarrow>
          \<not> nullish r \<and> get_prop r (Named ''done'') = Boolean False \<and>
          get_prop r (Named ''value'') = v
      | _ \<Rightarrow> False)"

text \<open>The i-th pull resolves to a result object whose \<^verbatim>\<open>done\<close> is \<^verbatim>\<open>true\<close>.\<close>

definition resolves_done :: "sequence \<Rightarrow> nat \<Rightarrow> bool" where
  "resolves_done nxt i =
     (case nxt i of
        Returns (Fulfils r) \<Rightarrow> \<not> nullish r \<and> get_prop r (Named ''done'') = Boolean True
      | _ \<Rightarrow> False)"

text \<open>
  The stream has delivered its end-of-stream marker or an error notification as
  the last thing.
\<close>

definition terminal :: "adapter \<Rightarrow> bool" where
  "terminal s =
     (case rev (emitted s) of
        [] \<Rightarrow> False
      | Data v # es \<Rightarrow> False
      | End # es \<Rightarrow> True
      | Error e # es \<Rightarrow> True)"

text \<open>
  A stream in object mode that waits for the next demand: not ended, no call of
  \<^verbatim>\<open>_read\<close> waiting for its push, no pull outstanding.
\<close>

definition idle :: "adapter \<Rightarrow> bool" where
  "idle s = (objectMode s \<and> \<not> ended s \<and> \<not> reading s \<and> pending s = [] \<and> has_next (g s))"

text \<open>
  What the host's discipline maintains from construction on: at most one pull is
  outstanding, and only while the host waits for a push on a stream that has not
  ended; the stream has ended exactly when the end-of-stream marker was the last
  thing delivered; after an error notification the host still waits for a push
  that never comes.
\<close>

definition disciplined :: "adapter \<Rightarrow> bool" where
  "disciplined s =
     (objectMode s \<and> length (pending s) \<le> 1 \<and>
      (pending s \<noteq> [] \<longrightarrow> reading s \<and> \<not> ended s) \<and>
      (ended s \<longleftrightarrow> (\<exists>es. emitted s = es @ [End])) \<and>
      (\<forall>es e. emitted s = es @ [Error e] \<longrightarrow> reading s \<and> pending s = []))"

section \<open>One round of the host\<close>

lemma resolves_itemD:
  "resolves_item nxt i v \<Longrightarrow>
     \<exists>r. nxt i = Returns (Fulfils r) \<and> \<not> nullish r \<and>
         get_prop r (Named ''done'') = Boolean False \<and> get_prop r (Named ''value'') = v"
  by (auto simp: resolves_item_def split: pull.splits settlement.splits)

lemma resolves_doneD:
  "resolves_done nxt i \<Longrightarrow>
     \<exists>r. nxt i = Returns (Fulfils r) \<and> \<not> nullish r \<and> get_prop r (Named ''done'') = Boolean True"
  by (auto simp: resolves_done_def split: pull.splits settlement.splits)

lemma round_item:
  assumes "idle s" and "resolves_item nxt (calls s) v" and "v \<noteq> Null"
  shows "idle (settle (demand nxt s))"
    and "calls (settle (demand nxt s)) = Suc (calls s)"
    and "emitted (settle (demand nxt s)) = emitted s @ [Data v]"
    and "unhandled (settle (demand nxt s)) = unhandled s"
  using assms resolves_itemD[OF assms(2)]
  by (auto simp: idle_def demand_def StreamGenerators_read_def settle_def
      on_fulfilled_def push_def)

lemma round_done:
  assumes "idle s" and "resolves_done nxt (calls s)"
  shows "ended (settle (demand nxt s))"
    and "pending (settle (demand nxt s)) = []"
    and "calls (settle (demand nxt s)) = Suc (calls s)"
    and "emitted (settle (demand nxt s)) = emitted s @ [End]"
  using assms resolves_doneD[OF assms(2)]
  by (auto simp: idle_def demand_def StreamGenerators_read_def settle_def
      on_fulfilled_def push_def)

lemma round_rejected:
  assumes "idle s" and "nxt (calls s) = Returns (Rejects e)"
  shows "reading (settle (demand nxt s))"
    and "pending (settle (demand nxt s)) = []"
    and "emitted (settle (demand nxt s)) = emitted s"
    and "unhandled (settle (demand nxt s)) = unhandled s @ [e]"
  using assms
  by (auto simp: idle_def demand_def StreamGenerators_read_def settle_def)

lemma round_thrown:
  assumes "idle s" and "nxt (calls s) = Throws e"
  shows "reading (settle (demand nxt s))"
    and "pending (settle (demand nxt s)) = []"
    and "emitted (settle (demand nxt s)) = emitted s @ [Error e]"
  using assms
  by (auto simp: idle_def demand_def StreamGenerators_read_def settle_def emit_error_def)

lemma quiet_step:
  "pending s = [] \<Longrightarrow> ended s \<or> reading s \<Longrightarrow> do_step nxt a s = s"
  by (cases a) (auto simp: demand_def settle_def)

lemma run_quiet:
  "pending s = [] \<Longrightarrow> ended s \<or> reading s \<Longrightarrow> run nxt sched s = s"
  by (induction sched) (simp_all add: quiet_step)

lemma drive_quiet:
  "pending s = [] \<Longrightarrow> ended s \<or> reading s \<Longrightarrow> drive nxt n s = s"
  by (induction n) (simp_all add: demand_def settle_def)

lemma drive_items:
  assumes "idle s"
    and "\<forall>i<length vs. resolves_item nxt (calls s + i) (vs ! i)"
    and "Null \<notin> set vs"
    and "resolves_done nxt (calls s + length vs)"
    and "length vs < n"
  shows "emitted (drive nxt n s) = emitted s @ map Data vs @ [End] \<and>
         calls (drive nxt n s) = Suc (calls s + length vs)"
  using assms
proof (induction vs arbitrary: s n)
  case Nil
  then obtain m where n: "n = Suc m" by (cases n) auto
  from Nil have d: "resolves_done nxt (calls s)" by simp
  let ?t = "settle (demand nxt s)"
  have "drive nxt m ?t = ?t"
    using round_done(1,2)[OF Nil.prems(1) d] by (simp add: drive_quiet)
  then show ?case using round_done(3,4)[OF Nil.prems(1) d] by (simp add: n)
next
  case (Cons v vs)
  then obtain m where n: "n = Suc m" by (cases n) auto
  let ?t = "settle (demand nxt s)"
  from Cons.prems(2) have it: "resolves_item nxt (calls s) v" by force
  from Cons.prems(3) have nn: "v \<noteq> Null" by auto
  note r = round_item[OF Cons.prems(1) it nn]
  have items: "\<forall>i<length vs. resolves_item nxt (calls ?t + i) (vs ! i)"
  proof (intro allI impI)
    fix i assume "i < length vs"
    then have "resolves_item nxt (calls s + Suc i) ((v # vs) ! Suc i)"
      using Cons.prems(2) by (metis Suc_less_eq length_Cons)
    then show "resolves_item nxt (calls ?t + i) (vs ! i)" by (simp add: r(2))
  qed
  have "emitted (drive nxt m ?t) = emitted ?t @ map Data vs @ [End] \<and>
        calls (drive nxt m ?t) = Suc (calls ?t + length vs)"
    using Cons.IH[OF r(1) items] Cons.prems(3,4,5) by (simp add: r(2) n)
  then show ?case by (simp add: n r(2,3))
qed

lemma constructed:
  "StreamGenerators g0 = Inr s0 \<Longrightarrow> isAsyncIterator g0 \<and> s0 = initialised g0"
  by (auto simp: StreamGenerators_def split: if_splits)

lemma initialised_idle: "has_next g0 \<Longrightarrow> idle (initialised g0)"
  by (simp add: idle_def initialised_def)

section \<open>The invariant of the host's discipline\<close>

lemma disciplined_initialised: "disciplined (initialised g0)"
  by (simp add: disciplined_def initialised_def)

lemma disciplined_demand: "disciplined s \<Longrightarrow> disciplined (demand nxt s)"
  by (auto simp: disciplined_def demand_def StreamGenerators_read_def emit_error_def
      split: pull.splits)

lemma disciplined_settle: "disciplined s \<Longrightarrow> disciplined (settle s)"
  by (auto simp: disciplined_def settle_def on_fulfilled_def push_def
      split: list.splits settlement.splits)

lemma disciplined_run: "disciplined s \<Longrightarrow> disciplined (run nxt sched s)"
proof (induction sched arbitrary: s)
  case Nil
  then show ?case by simp
next
  case (Cons a sched)
  have "disciplined (do_step nxt a s)"
    using Cons.prems by (cases a) (simp_all add: disciplined_demand disciplined_settle)
  then show ?case using Cons.IH by simp
qed

lemma g_run [simp]: "g (run nxt sched s) = g s"
proof (induction sched arbitrary: s)
  case Nil
  then show ?case by simp
next
  case (Cons a sched)
  have "g (do_step nxt a s) = g s"
    by (cases a)
      (auto simp: demand_def StreamGenerators_read_def emit_error_def settle_def
        on_fulfilled_def push_def split: pull.splits list.splits settlement.splits)
  then show ?case using Cons.IH by simp
qed

lemma terminal_quiet:
  assumes "disciplined s" and "terminal s"
  shows "pending s = [] \<and> (ended s \<or> reading s)"
proof -
  from assms(2) obtain es x where e: "emitted s = es @ [x]" and x: "x = End \<or> (\<exists>e. x = Error e)"
    by (cases "emitted s" rule: rev_cases) (auto simp: terminal_def split: event.splits)
  from x show ?thesis
  proof
    assume "x = End"
    with e assms(1) show ?thesis by (auto simp: disciplined_def)
  next
    assume "\<exists>e. x = Error e"
    with e assms(1) show ?thesis by (auto simp: disciplined_def)
  qed
qed

section \<open>Construction\<close>

text \<open>
  C3. Construction throws the TypeError of the constructor (the spec's
  InvalidArgument) for null, for undefined, for every value whose typeof is neither
  "object" nor "function", and for every object on which the async-iterator lookup
  is not callable; nothing is returned and nothing is pulled. For every other
  argument it returns the initialised stream, on which no pull has been made.
\<close>

theorem construction_validates_argument:
  "(g0 = Null \<or> g0 = Undefined \<or> typeof g0 \<notin> {''object'', ''function''} \<or>
      \<not> callable (get_prop g0 SymbolAsyncIterator)
      \<longrightarrow> StreamGenerators g0 = Inl (TypeError ''First argument must be a ES6 Async Generator''))
   \<and> (\<not> nullish g0 \<and> callable (get_prop g0 SymbolAsyncIterator)
      \<longrightarrow> StreamGenerators g0 = Inr (initialised g0) \<and> calls (initialised g0) = 0 \<and>
          pending (initialised g0) = [] \<and> emitted (initialised g0) = [])"
  by (cases g0)
    (simp_all add: StreamGenerators_def isAsyncIterator_def nullish_def callable_def
      initialised_def)

theorem construction_validates_argument_witness:
  "StreamGenerators Null = Inl (TypeError ''First argument must be a ES6 Async Generator'')
   \<and> StreamGenerators (Number 3) = Inl (TypeError ''First argument must be a ES6 Async Generator'')
   \<and> StreamGenerators (Object False [(Named ''next'', Object True [])])
       = Inl (TypeError ''First argument must be a ES6 Async Generator'')
   \<and> StreamGenerators generator_object = Inr (initialised generator_object)"
  using construction_validates_argument[of Null]
    construction_validates_argument[of "Number 3"]
    construction_validates_argument[of "Object False [(Named ''next'', Object True [])]"]
    construction_validates_argument[of generator_object]
  by (simp add: nullish_def callable_def generator_object_def)

section \<open>The read operation\<close>

text \<open>
  C9, as the spec states it, fails for an argument that the constructor accepts
  and that has no callable \<^verbatim>\<open>next\<close> of its own: the call
  \<^verbatim>\<open>this._g.next()\<close> throws inside the \<^verbatim>\<open>try\<close>, so an invocation of the read
  operation requests no item at all and signals a TypeError.
\<close>

theorem read_without_next_counterexample:
  "StreamGenerators iterable_only = Inr (initialised iterable_only)
   \<and> calls (initialised iterable_only) = 0
   \<and> calls (StreamGenerators_read (generator_of [Number 1]) (initialised iterable_only)) = 0
   \<and> pending (StreamGenerators_read (generator_of [Number 1]) (initialised iterable_only)) = []
   \<and> emitted (StreamGenerators_read (generator_of [Number 1]) (initialised iterable_only))
       = [Error (TypeError ''this._g.next is not a function'')]"
  by (simp add: StreamGenerators_def initialised_def isAsyncIterator_def nullish_def
      callable_def has_next_def iterable_only_def StreamGenerators_read_def emit_error_def)

text \<open>
  C9, amended. Every invocation of the read operation invokes \<^verbatim>\<open>next\<close>
  exactly once when the wrapped object has a callable \<^verbatim>\<open>next\<close>, and not at all
  when it has none (then it signals a TypeError); it leaves at most one more promise
  outstanding. This holds for every state: whatever the fill of the internal buffer
  and the high-water mark are, and also right after a push, whatever that push
  answered.
\<close>

theorem read_pulls_once_iff_next_is_callable:
  "calls (StreamGenerators_read nxt (s\<lparr>buffered := b, highWaterMark := h\<rparr>))
     = (if has_next (g s) then Suc (calls s) else calls s)
   \<and> length (pending (StreamGenerators_read nxt (s\<lparr>buffered := b, highWaterMark := h\<rparr>)))
       \<le> Suc (length (pending s))
   \<and> calls (StreamGenerators_read nxt (snd (push v s)))
       = (if has_next (g s) then Suc (calls s) else calls s)
   \<and> (\<not> has_next (g s) \<longrightarrow>
        emitted (StreamGenerators_read nxt s)
          = emitted s @ [Error (TypeError ''this._g.next is not a function'')])"
  by (auto simp: StreamGenerators_read_def emit_error_def push_def split: pull.splits)

theorem read_pulls_once_iff_next_is_callable_witness:
  "has_next (g (initialised generator_object))
   \<and> fst (push (Number 1) ((initialised generator_object)\<lparr>buffered := 40, highWaterMark := 16\<rparr>)) = False
   \<and> calls (StreamGenerators_read (generator_of [Number 1, Number 2])
        ((initialised generator_object)\<lparr>buffered := 40, highWaterMark := 16\<rparr>)) = Suc 0
   \<and> calls (StreamGenerators_read (generator_of [Number 1, Number 2])
        (snd (push (Number 1) (initialised generator_object)))) = Suc 0
   \<and> \<not> has_next (g (initialised iterable_only))
   \<and> calls (StreamGenerators_read (generator_of [Number 1, Number 2])
        ((initialised iterable_only)\<lparr>buffered := 40, highWaterMark := 16\<rparr>)) = 0
   \<and> emitted (StreamGenerators_read (generator_of [Number 1, Number 2]) (initialised iterable_only))
       = [Error (TypeError ''this._g.next is not a function'')]"
proof -
  have h: "has_next (g (initialised generator_object))"
    by (simp add: initialised_def generator_object_def has_next_def callable_def)
  have c: "calls (initialised generator_object) = 0"
    by (simp add: initialised_def)
  have f: "fst (push (Number 1) ((initialised generator_object)\<lparr>buffered := 40, highWaterMark := 16\<rparr>)) = False"
    by (simp add: push_def initialised_def)
  have h': "\<not> has_next (g (initialised iterable_only))"
    by (simp add: initialised_def iterable_only_def has_next_def callable_def)
  have c': "calls (initialised iterable_only) = 0" and e': "emitted (initialised iterable_only) = []"
    by (simp_all add: initialised_def)
  show ?thesis
    using h f h'
      read_pulls_once_iff_next_is_callable[where s = "initialised generator_object"
        and nxt = "generator_of [Number 1, Number 2]" and b = 40 and h = 16 and v = "Number 1"]
      read_pulls_once_iff_next_is_callable[where s = "initialised iterable_only"
        and nxt = "generator_of [Number 1, Number 2]" and b = 40 and h = 16 and v = "Number 1"]
    by (simp add: c c' e')
qed

text \<open>
  C10. When a pull resolves to a result object \<open>r\<close>, the value is pushed only if
  \<^verbatim>\<open>r.done\<close> is the boolean false; for every other \<^verbatim>\<open>r.done\<close> (true, missing,
  any other value) the end-of-stream marker is pushed and \<^verbatim>\<open>r.value\<close> is dropped.
  (A pushed value that is null is itself the end-of-stream marker.)
\<close>

theorem value_pushed_only_on_strict_false:
  assumes "has_next (g s)" and "pending s = []" and "\<not> ended s" and "objectMode s"
    and "nxt (calls s) = Returns (Fulfils r)" and "\<not> nullish r"
  shows "(get_prop r (Named ''done'') = Boolean False \<longrightarrow>
            emitted (settle (StreamGenerators_read nxt s)) =
              emitted s @ [if get_prop r (Named ''value'') = Null then End
                           else Data (get_prop r (Named ''value''))])
       \<and> (get_prop r (Named ''done'') \<noteq> Boolean False \<longrightarrow>
            emitted (settle (StreamGenerators_read nxt s)) = emitted s @ [End])"
  using assms
  by (auto simp: StreamGenerators_read_def settle_def on_fulfilled_def push_def)

theorem value_pushed_only_on_strict_false_witness:
  "emitted (settle (StreamGenerators_read
      (\<lambda>i. Returns (Fulfils (Object False [(Named ''done'', Number 0), (Named ''value'', Number 5)])))
      (initialised generator_object))) = [End]
   \<and> emitted (settle (StreamGenerators_read
      (\<lambda>i. Returns (Fulfils (Object False [(Named ''value'', Number 5)])))
      (initialised generator_object))) = [End]
   \<and> emitted (settle (StreamGenerators_read
      (\<lambda>i. Returns (Fulfils (Object False [(Named ''done'', Boolean False), (Named ''value'', Number 5)])))
      (initialised generator_object))) = [Data (Number 5)]"
  using
    value_pushed_only_on_strict_false[of "initialised generator_object"
      "\<lambda>i. Returns (Fulfils (Object False [(Named ''done'', Number 0), (Named ''value'', Number 5)]))"
      "Object False [(Named ''done'', Number 0), (Named ''value'', Number 5)]"]
    value_pushed_only_on_strict_false[of "initialised generator_object"
      "\<lambda>i. Returns (Fulfils (Object False [(Named ''value'', Number 5)]))"
      "Object False [(Named ''value'', Number 5)]"]
    value_pushed_only_on_strict_false[of "initialised generator_object"
      "\<lambda>i. Returns (Fulfils (Object False [(Named ''done'', Boolean False), (Named ''value'', Number 5)]))"
      "Object False [(Named ''done'', Boolean False), (Named ''value'', Number 5)]"]
  by (simp add: initialised_def generator_object_def has_next_def callable_def nullish_def)

section \<open>Whole streams\<close>

text \<open>
  C7, as the spec states it, fails for an argument that the constructor accepts
  and that has no callable \<^verbatim>\<open>next\<close> of its own: the sequence behind it may
  report completion at once, the stream still delivers a TypeError and no
  end-of-stream marker.
\<close>

theorem empty_sequence_counterexample:
  "StreamGenerators iterable_only = Inr (initialised iterable_only)
   \<and> resolves_done (generator_of []) 0
   \<and> emitted (drive (generator_of []) 2 (initialised iterable_only))
       = [Error (TypeError ''this._g.next is not a function'')]
   \<and> emitted (drive (generator_of []) 2 (initialised iterable_only)) \<noteq> [End]
   \<and> \<not> ended (drive (generator_of []) 2 (initialised iterable_only))"
  by (simp add: StreamGenerators_def initialised_def isAsyncIterator_def nullish_def
      callable_def has_next_def iterable_only_def generator_of_def completes_def
      resolves_done_def eval_nat_numeral demand_def settle_def StreamGenerators_read_def
      emit_error_def)

text \<open>
  C7, amended. A wrapped sequence whose object has a callable \<^verbatim>\<open>next\<close> of its
  own (as every async generator object has) and whose first pull reports completion
  gives a stream that delivers no item and then the end-of-stream marker, after one
  pull, however long the consumer keeps asking.
\<close>

theorem empty_sequence_ends:
  assumes "StreamGenerators g0 = Inr s0" and "has_next g0" and "resolves_done nxt 0" and "0 < n"
  shows "emitted (drive nxt n s0) = [End] \<and> calls (drive nxt n s0) = 1"
proof -
  from constructed[OF assms(1)] have s0: "s0 = initialised g0" by simp
  have i: "idle s0" and c: "calls s0 = 0" and e: "emitted s0 = []"
    using assms(2) by (simp_all add: s0 initialised_idle) (simp_all add: initialised_def)
  have "emitted (drive nxt n s0) = emitted s0 @ map Data [] @ [End] \<and>
        calls (drive nxt n s0) = Suc (calls s0 + length ([] :: jsval list))"
    by (rule drive_items) (use i c assms(3,4) in simp_all)
  then show ?thesis by (simp add: c e)
qed

theorem empty_sequence_ends_witness:
  "StreamGenerators generator_object = Inr (initialised generator_object)
   \<and> has_next generator_object \<and> resolves_done (generator_of []) 0
   \<and> emitted (drive (generator_of []) 3 (initialised generator_object)) = [End]
   \<and> calls (drive (generator_of []) 3 (initialised generator_object)) = 1"
proof -
  have a: "StreamGenerators generator_object = Inr (initialised generator_object)"
    by (simp add: StreamGenerators_def isAsyncIterator_def nullish_def generator_object_def)
  have b: "has_next generator_object"
    by (simp add: has_next_def callable_def generator_object_def)
  have c: "resolves_done (generator_of []) 0"
    by (simp add: resolves_done_def generator_of_def completes_def nullish_def)
  show ?thesis
    using a b c empty_sequence_ends[OF a b c, of 3] by simp
qed

text \<open>
  C2, as the spec states it, fails in two ways. A yielded null is pushed as it is,
  and a pushed null is the end-of-stream marker: the generator below yields 1, null,
  2, and the stream delivers 1 and ends. And an argument that the constructor
  accepts and that has no callable \<^verbatim>\<open>next\<close> of its own is never pulled: the
  sequence behind it yields a and 2, and the stream delivers a TypeError only.
\<close>

theorem order_preserved_counterexample:
  "StreamGenerators generator_object = Inr (initialised generator_object)
   \<and> resolves_item (generator_of [Number 1, Null, Number 2]) 0 (Number 1)
   \<and> resolves_item (generator_of [Number 1, Null, Number 2]) 1 Null
   \<and> resolves_item (generator_of [Number 1, Null, Number 2]) 2 (Number 2)
   \<and> resolves_done (generator_of [Number 1, Null, Number 2]) 3
   \<and> emitted (drive (generator_of [Number 1, Null, Number 2]) 4 (initialised generator_object))
       = [Data (Number 1), End]
   \<and> emitted (drive (generator_of [Number 1, Null, Number 2]) 4 (initialised generator_object))
       \<noteq> map Data [Number 1, Null, Number 2] @ [End]
   \<and> StreamGenerators iterable_only = Inr (initialised iterable_only)
   \<and> resolves_item (generator_of [Text ''a'', Number 2]) 0 (Text ''a'')
   \<and> resolves_item (generator_of [Text ''a'', Number 2]) 1 (Number 2)
   \<and> resolves_done (generator_of [Text ''a'', Number 2]) 2
   \<and> emitted (drive (generator_of [Text ''a'', Number 2]) 5 (initialised iterable_only))
       = [Error (TypeError ''this._g.next is not a function'')]
   \<and> emitted (drive (generator_of [Text ''a'', Number 2]) 5 (initialised iterable_only))
       \<noteq> map Data [Text ''a'', Number 2] @ [End]"
  by (simp add: StreamGenerators_def initialised_def isAsyncIterator_def nullish_def
      callable_def has_next_def generator_object_def iterable_only_def generator_of_def
      yields_def completes_def resolves_item_def resolves_done_def eval_nat_numeral
      demand_def settle_def StreamGenerators_read_def on_fulfilled_def push_def emit_error_def)

text \<open>
  C2, amended. For every finite wrapped sequence whose object has a callable
  \<^verbatim>\<open>next\<close> of its own (as every async generator object has) and that yields
  the items \<open>vs\<close>, none of them null, and then reports completion, a consumer
  that asks more often than there are items is delivered exactly \<open>vs\<close>, in
  order, followed by the end-of-stream marker.
\<close>

theorem order_preserved_for_non_null_items:
  assumes "StreamGenerators g0 = Inr s0" and "has_next g0"
    and "\<forall>i<length vs. resolves_item nxt i (vs ! i)"
    and "Null \<notin> set vs"
    and "resolves_done nxt (length vs)"
    and "length vs < n"
  shows "emitted (drive nxt n s0) = map Data vs @ [End]"
proof -
  from constructed[OF assms(1)] have s0: "s0 = initialised g0" by simp
  have i: "idle s0" and c: "calls s0 = 0" and e: "emitted s0 = []"
    using assms(2) by (simp_all add: s0 initialised_idle) (simp_all add: initialised_def)
  have "emitted (drive nxt n s0) = emitted s0 @ map Data vs @ [End] \<and>
        calls (drive nxt n s0) = Suc (calls s0 + length vs)"
    by (rule drive_items) (use i c assms in simp_all)
  then show ?thesis by (simp add: e)
qed

theorem order_preserved_for_non_null_items_witness:
  "StreamGenerators generator_object = Inr (initialised generator_object)
   \<and> has_next generator_object
   \<and> Null \<notin> set [Text ''a'', Number 2, car_record]
   \<and> resolves_done (generator_of [Text ''a'', Number 2, car_record]) 3
   \<and> emitted (drive (generator_of [Text ''a'', Number 2, car_record]) 7 (initialised generator_object))
       = [Data (Text ''a''), Data (Number 2), Data car_record, End]"
proof -
  let ?vs = "[Text ''a'', Number 2, car_record]"
  have a: "StreamGenerators generator_object = Inr (initialised generator_object)"
    by (simp add: StreamGenerators_def isAsyncIterator_def nullish_def generator_object_def)
  have b: "has_next generator_object"
    by (simp add: has_next_def callable_def generator_object_def)
  have c: "\<forall>i<length ?vs. resolves_item (generator_of ?vs) i (?vs ! i)"
    by (simp add: resolves_item_def generator_of_def yields_def nullish_def)
  have d: "Null \<notin> set ?vs" by (simp add: car_record_def)
  have e: "resolves_done (generator_of ?vs) 3"
    by (simp add: resolves_done_def generator_of_def completes_def nullish_def)
  have e': "resolves_done (generator_of ?vs) (length ?vs)"
    using e by (simp add: eval_nat_numeral)
  have f: "length ?vs < 7" by simp
  show ?thesis
    using a b d e order_preserved_for_non_null_items[OF a b c d e' f] by simp
qed

text \<open>
  C8, as the spec states it, fails for one value: a yielded null is handed to
  \<^verbatim>\<open>push\<close> as it is, where it is the end-of-stream marker, so the consumer is
  given the end of the stream and not an item.
\<close>

theorem passthrough_counterexample:
  "StreamGenerators generator_object = Inr (initialised generator_object)
   \<and> resolves_item (generator_of [Null]) 0 Null
   \<and> emitted (settle (StreamGenerators_read (generator_of [Null]) (initialised generator_object)))
       = [End]
   \<and> emitted (settle (StreamGenerators_read (generator_of [Null]) (initialised generator_object)))
       \<noteq> [Data Null]"
  by (simp add: StreamGenerators_def initialised_def isAsyncIterator_def nullish_def
      callable_def has_next_def generator_object_def generator_of_def yields_def
      resolves_item_def settle_def StreamGenerators_read_def on_fulfilled_def push_def)

text \<open>
  Whatever \<^verbatim>\<open>push\<close> does with a null, the continuation makes the same call
  for a yielded null as for the completion of the sequence.
\<close>

lemma yielded_null_is_pushed_like_completion:
  "on_fulfilled (Object False [(Named ''done'', Boolean False), (Named ''value'', Null)]) s
   = on_fulfilled (Object False [(Named ''done'', Boolean True), (Named ''value'', Undefined)]) s"
  by (simp add: on_fulfilled_def nullish_def)

text \<open>
  C8, amended. At every point a stream built by the constructor can reach under the
  host's steps, before its end: when the next pull yields a value \<open>v\<close> that is
  not null, whatever its structure, the consumer is given exactly \<open>v\<close> as the
  next item.
\<close>

theorem non_null_value_passes_through:
  assumes "StreamGenerators g0 = Inr s0" and "has_next g0"
    and "s = run nxt sched s0" and "\<not> ended s" and "pending s = []"
    and "resolves_item nxt (calls s) v" and "v \<noteq> Null"
  shows "emitted (settle (StreamGenerators_read nxt s)) = emitted s @ [Data v]"
proof -
  from constructed[OF assms(1)] have s0: "s0 = initialised g0" by simp
  have "disciplined s"
    unfolding assms(3) s0 by (rule disciplined_run) (rule disciplined_initialised)
  then have om: "objectMode s" by (simp add: disciplined_def)
  have "g s = g0" by (simp add: assms(3) s0 initialised_def)
  then have hn: "has_next (g s)" using assms(2) by simp
  from resolves_itemD[OF assms(6)] obtain r where
    r: "nxt (calls s) = Returns (Fulfils r)" "\<not> nullish r"
       "get_prop r (Named ''done'') = Boolean False" "get_prop r (Named ''value'') = v"
    by blast
  show ?thesis
    using om hn r assms(4,5,7)
    by (simp add: StreamGenerators_read_def settle_def on_fulfilled_def push_def)
qed

theorem non_null_value_passes_through_witness:
  "StreamGenerators generator_object = Inr (initialised generator_object)
   \<and> has_next generator_object
   \<and> car_record \<noteq> Null
   \<and> emitted (settle (StreamGenerators_read (generator_of [Number 1, car_record])
        (run (generator_of [Number 1, car_record]) [Demand, Settle] (initialised generator_object))))
      = [Data (Number 1), Data car_record]"
proof -
  let ?nxt = "generator_of [Number 1, car_record]"
  let ?s = "run ?nxt [Demand, Settle] (initialised generator_object)"
  have a: "StreamGenerators generator_object = Inr (initialised generator_object)"
    by (simp add: StreamGenerators_def isAsyncIterator_def nullish_def generator_object_def)
  have b: "has_next generator_object"
    by (simp add: has_next_def callable_def generator_object_def)
  have s: "?s = (initialised generator_object)\<lparr>buffered := 1, calls := 1,
                  emitted := [Data (Number 1)]\<rparr>"
    by (simp add: initialised_def generator_object_def has_next_def callable_def
        generator_of_def yields_def demand_def settle_def StreamGenerators_read_def
        on_fulfilled_def push_def nullish_def)
  have c: "\<not> ended ?s" and d: "pending ?s = []" and k: "calls ?s = 1"
    and e: "emitted ?s = [Data (Number 1)]"
    unfolding s by (simp_all add: initialised_def)
  have f: "resolves_item ?nxt (calls ?s) car_record"
    unfolding k by (simp add: resolves_item_def generator_of_def yields_def nullish_def)
  have n: "car_record \<noteq> Null" by (simp add: car_record_def)
  have "emitted (settle (StreamGenerators_read ?nxt ?s)) = emitted ?s @ [Data car_record]"
    by (rule non_null_value_passes_through[OF a b refl c d f n])
  then have "emitted (settle (StreamGenerators_read ?nxt ?s)) = [Data (Number 1), Data car_record]"
    by (simp only: e append_Cons append_Nil)
  with a b n show ?thesis by (simp only: simp_thms)
qed

section \<open>Failing pulls\<close>

text \<open>
  C1. The generator yields 1 and 2 and then throws: its third pull rejects. The
  stream delivers 1 and 2 and then nothing: no error notification, no end of
  stream. The rejection reaches no handler, since \<^verbatim>\<open>_read\<close> registers a
  fulfilment handler only and its \<^verbatim>\<open>try\<close> has returned by then.
\<close>

theorem rejected_pull_is_not_signalled:
  "StreamGenerators generator_object = Inr (initialised generator_object)
   \<and> emitted (drive (failing_generator [Number 1, Number 2] (PlainError ''E'')) 5
        (initialised generator_object)) = [Data (Number 1), Data (Number 2)]
   \<and> unhandled (drive (failing_generator [Number 1, Number 2] (PlainError ''E'')) 5
        (initialised generator_object)) = [PlainError ''E'']
   \<and> \<not> ended (drive (failing_generator [Number 1, Number 2] (PlainError ''E'')) 5
        (initialised generator_object))"
  by (simp add: StreamGenerators_def initialised_def isAsyncIterator_def nullish_def
      callable_def has_next_def generator_object_def failing_generator_def yields_def
      completes_def eval_nat_numeral demand_def settle_def StreamGenerators_read_def
      on_fulfilled_def push_def)

text \<open>
  The two kinds of failure side by side, for any stream that waits for a demand:
  a pull that throws is signalled as an error notification, a pull that rejects is
  not signalled at all.
\<close>

lemma thrown_pull_is_signalled:
  assumes "idle s" and "nxt (calls s) = Throws e"
  shows "emitted (settle (demand nxt s)) = emitted s @ [Error e]"
  using round_thrown(3)[where s = s and nxt = nxt and e = e, OF assms] .

lemma rejected_pull_is_silent:
  assumes "idle s" and "nxt (calls s) = Returns (Rejects e)"
  shows "emitted (drive nxt (Suc n) s) = emitted s \<and> \<not> ended (drive nxt (Suc n) s)"
proof -
  let ?t = "settle (demand nxt s)"
  have "drive nxt n ?t = ?t"
    using round_rejected(1,2)[where s = s and nxt = nxt and e = e, OF assms]
    by (simp add: drive_quiet)
  moreover have "\<not> ended ?t"
    using assms by (auto simp: idle_def demand_def StreamGenerators_read_def settle_def)
  ultimately show ?thesis
    using round_rejected(3)[where s = s and nxt = nxt and e = e, OF assms] by simp
qed

section \<open>Terminal states and outstanding pulls\<close>

text \<open>
  C4, as the spec states it, fails: the read operation has no guard. After the
  sequence has completed and the end-of-stream marker was delivered, one more
  invocation of the read operation invokes \<^verbatim>\<open>next\<close> again.
\<close>

theorem read_after_end_counterexample:
  "StreamGenerators generator_object = Inr (initialised generator_object)
   \<and> emitted (drive (generator_of []) 1 (initialised generator_object)) = [End]
   \<and> ended (drive (generator_of []) 1 (initialised generator_object))
   \<and> calls (drive (generator_of []) 1 (initialised generator_object)) = 1
   \<and> calls (StreamGenerators_read (generator_of [])
        (drive (generator_of []) 1 (initialised generator_object))) = 2"
  by (simp add: StreamGenerators_def initialised_def isAsyncIterator_def nullish_def
      callable_def has_next_def generator_object_def generator_of_def completes_def
      demand_def settle_def StreamGenerators_read_def on_fulfilled_def push_def)

text \<open>
  C4, amended. The terminal states are absorbing for the demands of the host: once
  a stream built by the constructor has delivered the end-of-stream marker or an
  error notification, no sequence of host demands and settlements invokes
  \<^verbatim>\<open>next\<close> again or delivers anything more; the state does not change at all.
\<close>

theorem terminal_states_absorb_host_demands:
  assumes "StreamGenerators g0 = Inr s0" and "s = run nxt sched s0" and "terminal s"
  shows "calls (run nxt later s) = calls s \<and> emitted (run nxt later s) = emitted s \<and>
         run nxt later s = s"
proof -
  from constructed[OF assms(1)] have s0: "s0 = initialised g0" by simp
  have "disciplined s"
    unfolding assms(2) s0 by (rule disciplined_run) (rule disciplined_initialised)
  from terminal_quiet[OF this assms(3)] have "run nxt later s = s"
    by (simp add: run_quiet)
  then show ?thesis by simp
qed

theorem terminal_states_absorb_host_demands_witness:
  "StreamGenerators generator_object = Inr (initialised generator_object)
   \<and> terminal (run (generator_of [Number 1]) [Demand, Settle, Demand, Settle]
        (initialised generator_object))
   \<and> emitted (run (generator_of [Number 1]) [Demand, Settle, Demand, Settle]
        (initialised generator_object)) = [Data (Number 1), End]
   \<and> calls (run (generator_of [Number 1]) [Demand, Settle, Demand]
        (run (generator_of [Number 1]) [Demand, Settle, Demand, Settle]
          (initialised generator_object))) = 2
   \<and> emitted (run (generator_of [Number 1]) [Demand, Settle, Demand]
        (run (generator_of [Number 1]) [Demand, Settle, Demand, Settle]
          (initialised generator_object))) = [Data (Number 1), End]
   \<and> terminal (run (\<lambda>i. Throws (PlainError ''E'')) [Demand] (initialised generator_object))
   \<and> emitted (run (\<lambda>i. Throws (PlainError ''E'')) [Demand] (initialised generator_object))
       = [Error (PlainError ''E'')]
   \<and> calls (run (\<lambda>i. Throws (PlainError ''E'')) [Demand, Settle, Demand]
        (run (\<lambda>i. Throws (PlainError ''E'')) [Demand] (initialised generator_object))) = 1
   \<and> emitted (run (\<lambda>i. Throws (PlainError ''E'')) [Demand, Settle, Demand]
        (run (\<lambda>i. Throws (PlainError ''E'')) [Demand] (initialised generator_object)))
       = [Error (PlainError ''E'')]"
proof -
  let ?nxt = "generator_of [Number 1]"
  let ?s = "run ?nxt [Demand, Settle, Demand, Settle] (initialised generator_object)"
  let ?thr = "\<lambda>i::nat. Throws (PlainError ''E'')"
  let ?u = "run ?thr [Demand] (initialised generator_object)"
  have a: "StreamGenerators generator_object = Inr (initialised generator_object)"
    by (simp add: StreamGenerators_def isAsyncIterator_def nullish_def generator_object_def)
  have s: "?s = (initialised generator_object)\<lparr>buffered := 1, ended := True, calls := 2,
                  emitted := [Data (Number 1), End]\<rparr>"
    by (simp add: initialised_def generator_object_def has_next_def callable_def
        generator_of_def yields_def completes_def demand_def settle_def
        StreamGenerators_read_def on_fulfilled_def push_def nullish_def)
  have t: "terminal ?s" and e: "emitted ?s = [Data (Number 1), End]" and k: "calls ?s = 2"
    unfolding s by (simp_all add: terminal_def initialised_def)
  have u: "?u = (initialised generator_object)\<lparr>reading := True, calls := 1,
                  emitted := [Error (PlainError ''E'')]\<rparr>"
    by (simp add: initialised_def generator_object_def has_next_def callable_def
        demand_def StreamGenerators_read_def emit_error_def)
  have t': "terminal ?u" and e': "emitted ?u = [Error (PlainError ''E'')]" and k': "calls ?u = 1"
    unfolding u by (simp_all add: terminal_def initialised_def)
  show ?thesis
    using a t e t' e'
      terminal_states_absorb_host_demands[OF a refl t, of "[Demand, Settle, Demand]"]
      terminal_states_absorb_host_demands[OF a refl t', of "[Demand, Settle, Demand]"]
    by (simp only: k e k' e' simp_thms)
qed

text \<open>
  C5. Under the host's demands, whatever their order with the settlements, a stream
  built by the constructor never has more than one pull outstanding, and a demand
  that arrives while a pull is outstanding invokes \<^verbatim>\<open>next\<close> not at all.
\<close>

theorem at_most_one_pull_outstanding:
  assumes "StreamGenerators g0 = Inr s0"
  shows "length (pending (run nxt sched s0)) \<le> 1 \<and>
         (pending (run nxt sched s0) \<noteq> [] \<longrightarrow>
            calls (demand nxt (run nxt sched s0)) = calls (run nxt sched s0))"
proof -
  from constructed[OF assms] have s0: "s0 = initialised g0" by simp
  have "disciplined (run nxt sched s0)"
    unfolding s0 by (rule disciplined_run) (rule disciplined_initialised)
  then show ?thesis by (auto simp: disciplined_def demand_def)
qed

theorem at_most_one_pull_outstanding_witness:
  "StreamGenerators generator_object = Inr (initialised generator_object)
   \<and> pending (run (generator_of [Number 1, Number 2]) [Demand, Settle, Demand, Demand]
        (initialised generator_object)) \<noteq> []
   \<and> length (pending (run (generator_of [Number 1, Number 2]) [Demand, Settle, Demand, Demand]
        (initialised generator_object))) \<le> 1
   \<and> calls (demand (generator_of [Number 1, Number 2])
        (run (generator_of [Number 1, Number 2]) [Demand, Settle, Demand, Demand]
          (initialised generator_object)))
      = calls (run (generator_of [Number 1, Number 2]) [Demand, Settle, Demand, Demand]
          (initialised generator_object))"
proof -
  let ?nxt = "generator_of [Number 1, Number 2]"
  let ?s = "run ?nxt [Demand, Settle, Demand, Demand] (initialised generator_object)"
  have a: "StreamGenerators generator_object = Inr (initialised generator_object)"
    by (simp add: StreamGenerators_def isAsyncIterator_def nullish_def generator_object_def)
  have p: "pending ?s \<noteq> []"
    by (simp add: initialised_def generator_object_def has_next_def callable_def
        generator_of_def yields_def demand_def settle_def StreamGenerators_read_def
        on_fulfilled_def push_def nullish_def)
  show ?thesis
    using a p at_most_one_pull_outstanding[OF a, of ?nxt "[Demand, Settle, Demand, Demand]"]
    by (simp only: simp_thms)
qed

text \<open>
  The guard is the host's: the read operation invoked twice in a row leaves two
  pulls outstanding.
\<close>

lemma read_has_no_guard:
  "length (pending (StreamGenerators_read (generator_of [Number 1, Number 2])
     (StreamGenerators_read (generator_of [Number 1, Number 2]) (initialised generator_object))))
   = 2"
  by (simp add: initialised_def generator_object_def has_next_def callable_def
      generator_of_def yields_def StreamGenerators_read_def)

section \<open>How the adapter reaches the sequence\<close>

text \<open>
  C6, as the spec states it, fails: the lookup is used to validate the argument
  and never to pull. An async iterable without a \<^verbatim>\<open>next\<close> of its own is accepted
  by the constructor, and then nothing of it is consumed: the read operation
  signals a TypeError and invokes nothing, whatever the iterable would yield.
\<close>

theorem iterable_only_counterexample:
  "StreamGenerators iterable_only = Inr (initialised iterable_only)
   \<and> emitted (drive (generator_of [Number 1, Number 2]) 3 (initialised iterable_only))
       = [Error (TypeError ''this._g.next is not a function'')]
   \<and> calls (drive (generator_of [Number 1, Number 2]) 3 (initialised iterable_only)) = 0"
  by (simp add: StreamGenerators_def initialised_def isAsyncIterator_def nullish_def
      callable_def has_next_def iterable_only_def eval_nat_numeral demand_def settle_def
      StreamGenerators_read_def emit_error_def)

text \<open>
  C6, amended. For every argument accepted by construction the adapter pulls by
  invoking the \<^verbatim>\<open>next\<close> method of the argument itself. If the argument has a
  callable \<^verbatim>\<open>next\<close> (as every async generator object has), a read invokes it once
  and waits for the promise it returned. If it has none, as an async iterable whose
  iterator is reachable through the lookup only, no pull is ever made: the stream
  delivers one TypeError notification and nothing else.
\<close>

theorem pulls_invoke_next_of_the_argument:
  assumes "StreamGenerators g0 = Inr s0"
  shows "(has_next g0 \<longrightarrow>
            calls (StreamGenerators_read nxt s0) = 1 \<and>
            pending (StreamGenerators_read nxt s0) =
              (case nxt 0 of Returns p \<Rightarrow> [p] | _ \<Rightarrow> []))
       \<and> (\<not> has_next g0 \<longrightarrow>
            calls (drive nxt (Suc n) s0) = 0 \<and>
            emitted (drive nxt (Suc n) s0) =
              [Error (TypeError ''this._g.next is not a function'')])"
proof -
  from constructed[OF assms] have s0: "s0 = initialised g0" by simp
  have 1: "calls (StreamGenerators_read nxt s0) = 1 \<and>
           pending (StreamGenerators_read nxt s0) = (case nxt 0 of Returns p \<Rightarrow> [p] | _ \<Rightarrow> [])"
    if "has_next g0"
    using that
    by (simp add: s0 initialised_def StreamGenerators_read_def emit_error_def split: pull.splits)
  have 2: "calls (drive nxt (Suc n) s0) = 0 \<and>
           emitted (drive nxt (Suc n) s0) = [Error (TypeError ''this._g.next is not a function'')]"
    if h: "\<not> has_next g0"
  proof -
    let ?t = "settle (demand nxt s0)"
    have t: "pending ?t = []" "reading ?t" "calls ?t = 0"
      "emitted ?t = [Error (TypeError ''this._g.next is not a function'')]"
      using h
      by (simp_all add: s0 initialised_def demand_def StreamGenerators_read_def emit_error_def
          settle_def)
    have "drive nxt n ?t = ?t" using t(1,2) by (simp add: drive_quiet)
    then show ?thesis using t(3,4) by simp
  qed
  from 1 2 show ?thesis by blast
qed

theorem pulls_invoke_next_of_the_argument_witness:
  "StreamGenerators generator_object = Inr (initialised generator_object)
   \<and> has_next generator_object
   \<and> calls (StreamGenerators_read (generator_of [Number 1]) (initialised generator_object)) = 1
   \<and> StreamGenerators iterable_only = Inr (initialised iterable_only)
   \<and> \<not> has_next iterable_only
   \<and> calls (drive (generator_of [Number 1]) (Suc 4) (initialised iterable_only)) = 0
   \<and> emitted (drive (generator_of [Number 1]) (Suc 4) (initialised iterable_only))
       = [Error (TypeError ''this._g.next is not a function'')]"
proof -
  have a: "StreamGenerators generator_object = Inr (initialised generator_object)"
    by (simp add: StreamGenerators_def isAsyncIterator_def nullish_def generator_object_def)
  have b: "has_next generator_object"
    by (simp add: has_next_def callable_def generator_object_def)
  have c: "StreamGenerators iterable_only = Inr (initialised iterable_only)"
    by (simp add: StreamGenerators_def isAsyncIterator_def nullish_def iterable_only_def)
  have d: "\<not> has_next iterable_only"
    by (simp add: has_next_def callable_def iterable_only_def)
  show ?thesis
    using a b c d
      pulls_invoke_next_of_the_argument[OF a, of "generator_of [Number 1]" 4]
      pulls_invoke_next_of_the_argument[OF c, of "generator_of [Number 1]" 4]
    by (simp only: simp_thms)
qed

end
